theory Spec2Isabelle
  imports Complex_Main
begin

section \<open>Synthetic liver dataset generator: split assignment, labels, anatomy, images\<close>

text \<open>
  Python floats are read as exact real numbers: sums, quotients and comparisons are the
  mathematical ones, where the interpreter rounds every sum and quotient to a double. The
  two agree on every concrete input evaluated below (the values are doubles whose sums
  are exact, or lie far from the thresholds they are compared with). A general statement
  below is about \<open>assign_split\<close> only where its conclusion does not depend on the rounding
  of a running total: that the ratio check fails, that the division fails, that the ranks
  of two results are ordered.
\<close>

subsection \<open>Errors\<close>

datatype py_error = ValueError | ZeroDivisionError | IndexError | KeyError

subsection \<open>The libraries the scripts call\<close>

text \<open>
  \<^verbatim>\<open>numpy.random.RandomState\<close> and \<^verbatim>\<open>hashlib.sha256\<close> are not code of this repository.
  They are taken as a parameter: a generator state of some type \<open>'s\<close>, and each method the
  scripts call as a function from the state to the drawn value and the next state.
  \<open>seed_state\<close> is the state a seed in range gives, \<open>normal_size\<close> and \<open>gamma_size\<close> are
  the draws with a \<^verbatim>\<open>size=(h, w)\<close> argument, \<open>sha256\<close> is the digest read as an integer.
\<close>

record 's library =
  seed_state :: "int \<Rightarrow> 's"
  rand :: "'s \<Rightarrow> real \<times> 's"
  uniform :: "real \<Rightarrow> real \<Rightarrow> 's \<Rightarrow> real \<times> 's"
  randint :: "int \<Rightarrow> int \<Rightarrow> 's \<Rightarrow> int \<times> 's"
  choice :: "string list \<Rightarrow> real list \<Rightarrow> 's \<Rightarrow> string \<times> 's"
  normal :: "real \<Rightarrow> real \<Rightarrow> 's \<Rightarrow> real \<times> 's"
  normal_size :: "real \<Rightarrow> real \<Rightarrow> nat \<times> nat \<Rightarrow> 's \<Rightarrow> real list list \<times> 's"
  gamma_size :: "real \<Rightarrow> real \<Rightarrow> nat \<times> nat \<Rightarrow> 's \<Rightarrow> real list list \<times> 's"
  poisson :: "real \<Rightarrow> 's \<Rightarrow> nat \<times> 's"
  sha256 :: "string \<Rightarrow> nat"

text \<open>\<^verbatim>\<open>RandomState(seed)\<close> rejects a seed outside \<open>[0, 2^32)\<close>.\<close>

definition RandomState :: "'s library \<Rightarrow> int \<Rightarrow> py_error + 's" where
  "RandomState lib seed =
     (if 0 \<le> seed \<and> seed < 2 ^ 32 then Inr (seed_state lib seed) else Inl ValueError)"

text \<open>\<^verbatim>\<open>rng.randint(low, high)\<close> rejects an empty range.\<close>

definition rng_randint :: "'s library \<Rightarrow> int \<Rightarrow> int \<Rightarrow> 's \<Rightarrow> py_error + int \<times> 's" where
  "rng_randint lib low high s =
     (if low < high then Inr (randint lib low high s) else Inl ValueError)"

definition is_shape :: "nat \<Rightarrow> nat \<Rightarrow> 'a list list \<Rightarrow> bool" where
  "is_shape h w a = (length a = h \<and> list_all (\<lambda>row. length row = w) a)"

text \<open>
  What the generators below rely on from numpy: \<open>rand\<close> draws from \<open>[0, 1)\<close>, \<open>uniform\<close>
  and \<open>randint\<close> draw within the bounds they are given, and a draw with a size has that
  shape.
\<close>

definition library_ok :: "'s library \<Rightarrow> bool" where
  "library_ok lib =
     ((\<forall>s. 0 \<le> fst (rand lib s) \<and> fst (rand lib s) < 1) \<and>
      (\<forall>lo hi s. lo < hi \<longrightarrow> lo \<le> fst (uniform lib lo hi s) \<and> fst (uniform lib lo hi s) \<le> hi) \<and>
      (\<forall>lo hi s. lo < hi \<longrightarrow> lo \<le> fst (randint lib lo hi s) \<and> fst (randint lib lo hi s) < hi) \<and>
      (\<forall>loc scale h w s. is_shape h w (fst (normal_size lib loc scale (h, w) s))) \<and>
      (\<forall>k scale h w s. is_shape h w (fst (gamma_size lib k scale (h, w) s))))"

text \<open>
  A small deterministic generator on which the model can be run: the state is a counter,
  every draw reads its value off the counter and advances it.
\<close>

definition counter_library :: "nat library" where
  "counter_library =
     \<lparr>seed_state = (\<lambda>seed. nat seed),
      rand = (\<lambda>s. (real (s mod 100) / 100, Suc s)),
      uniform = (\<lambda>lo hi s. (lo + (hi - lo) * real (s mod 100) / 100, Suc s)),
      randint = (\<lambda>lo hi s. (if lo < hi then lo + int s mod (hi - lo) else lo, Suc s)),
      choice = (\<lambda>xs p s. (if xs = [] then [] else xs ! (s mod length xs), Suc s)),
      normal = (\<lambda>loc scale s. (loc + scale * (real (s mod 7) - 3) / 2, Suc s)),
      normal_size = (\<lambda>loc scale shape s. (replicate (fst shape) (replicate (snd shape) loc), Suc s)),
      gamma_size = (\<lambda>k scale shape s.
        (replicate (fst shape) (replicate (snd shape) (k * scale)), Suc s)),
      poisson = (\<lambda>lam s. (nat \<lfloor>lam\<rfloor>, Suc s)),
      sha256 = (\<lambda>str. sum_list (map of_char str))\<rparr>"

subsection \<open>config.py\<close>

definition RANDOM_SEED :: int where
  "RANDOM_SEED = 42"

definition IMAGE_RESOLUTIONS :: "(string \<times> (nat \<times> nat)) list" where
  "IMAGE_RESOLUTIONS = [(''MRI'', (256, 256)), (''CT'', (512, 512)), (''Ultrasound'', (224, 224))]"

definition NUM_PATIENTS :: int where
  "NUM_PATIENTS = 1000"

text \<open>A dict keeps its insertion order and has unique keys: an association list.\<close>

definition SPLIT_RATIOS :: "(string \<times> real) list" where
  "SPLIT_RATIOS = [(''train'', 0.7), (''val'', 0.15), (''test'', 0.15)]"

definition FIBROSIS_STAGES :: "string list" where
  "FIBROSIS_STAGES = [''F0'', ''F1'', ''F2'', ''F3'', ''F4'']"

definition BINARY_LABEL_MAPPING :: "(string \<times> string list) list" where
  "BINARY_LABEL_MAPPING = [(''negative'', [''F0'', ''F1'', ''F2'']), (''positive'', [''F3'', ''F4''])]"

subsection \<open>utils.py\<close>

fun digits10 :: "nat \<Rightarrow> string" where
  "digits10 n =
     (if n < 10 then [''0123456789'' ! n]
      else digits10 (n div 10) @ [''0123456789'' ! (n mod 10)])"

definition zero_pad :: "nat \<Rightarrow> string \<Rightarrow> string" where
  "zero_pad width s = replicate (width - length s) CHR ''0'' @ s"

text \<open>The format \<^verbatim>\<open>{patient_index:04d}\<close>: the sign counts in the width of 4.\<close>

definition format_04d :: "int \<Rightarrow> string" where
  "format_04d i =
     (if i < 0 then CHR ''-'' # zero_pad 3 (digits10 (nat (- i))) else zero_pad 4 (digits10 (nat i)))"

definition get_patient_id :: "int \<Rightarrow> string \<Rightarrow> string" where
  "get_patient_id patient_index prefix = prefix @ ''_'' @ format_04d patient_index"

text \<open>\<^verbatim>\<open>sum(values)\<close> starts from 0 and adds from the left.\<close>

definition py_sum :: "real list \<Rightarrow> real" where
  "py_sum xs = foldl (+) 0 xs"

text \<open>\<^verbatim>\<open>np.isclose(a, b)\<close> with numpy's default tolerances \<open>rtol = 1e-05\<close>, \<open>atol = 1e-08\<close>.\<close>

definition isclose :: "real \<Rightarrow> real \<Rightarrow> bool" where
  "isclose a b = (\<bar>a - b\<bar> \<le> 1 / 10 ^ 8 + 1 / 10 ^ 5 * \<bar>b\<bar>)"

text \<open>
  The first loop of \<open>assign_split\<close>: the running total after each entry, in dict order.
  The total here is the exact sum; the interpreter rounds it to a double after every
  addition.
\<close>

fun boundaries_loop :: "real \<Rightarrow> (string \<times> real) list \<Rightarrow> (string \<times> real) list" where
  "boundaries_loop cumulative [] = []"
| "boundaries_loop cumulative ((split, ratio) # rest) =
     (split, cumulative + ratio) # boundaries_loop (cumulative + ratio) rest"

text \<open>The second loop: the first entry whose threshold is at least the position.\<close>

fun first_split :: "real \<Rightarrow> (string \<times> real) list \<Rightarrow> string option" where
  "first_split position [] = None"
| "first_split position ((split, threshold) # rest) =
     (if position \<le> threshold then Some split else first_split position rest)"

definition assign_split :: "int \<Rightarrow> int \<Rightarrow> (string \<times> real) list \<Rightarrow> py_error + string" where
  "assign_split patient_index num_patients split_ratios =
     (if \<not> isclose (py_sum (map snd split_ratios)) 1 then Inl ValueError
      else let boundaries = boundaries_loop 0 split_ratios in
        if num_patients = 0 then Inl ZeroDivisionError
        else let position = real_of_int (patient_index + 1) / real_of_int num_patients in
          (case first_split position boundaries of
             Some split \<Rightarrow> Inr split
           | None \<Rightarrow> (if split_ratios = [] then Inl IndexError
                      else Inr (last (map fst split_ratios)))))"

text \<open>
  The rank of a split name is its position in the declaration order of the mapping
  (the position of its first and, in a dict, only occurrence among the keys).
\<close>

fun rank_of :: "string list \<Rightarrow> string \<Rightarrow> nat" where
  "rank_of [] s = 0"
| "rank_of (x # xs) s = (if x = s then 0 else Suc (rank_of xs s))"

definition split_rank :: "(string \<times> real) list \<Rightarrow> string \<Rightarrow> nat" where
  "split_rank split_ratios s = rank_of (map fst split_ratios) s"

subsection \<open>labels\_generator.py\<close>

definition AGE_MEAN :: real where
  "AGE_MEAN = 60"

definition AGE_STD :: real where
  "AGE_STD = 10"

definition AGE_MIN :: int where
  "AGE_MIN = 30"

definition AGE_MAX :: int where
  "AGE_MAX = 85"

definition SEX_OPTIONS :: "string list" where
  "SEX_OPTIONS = [''M'', ''F'']"

definition SEX_PROBS :: "real list" where
  "SEX_PROBS = [0.5, 0.5]"

definition FIBROSIS_PROBS :: "real list" where
  "FIBROSIS_PROBS = [0.30, 0.25, 0.20, 0.15, 0.10]"

text \<open>The returned dict, its keys in insertion order; the table is the list of these rows.\<close>

record patient_record =
  patient_id :: string
  fibrosis_stage :: string
  binary_label :: string
  split :: string
  age :: int
  sex :: string

text \<open>\<^verbatim>\<open>round(x)\<close> of a float: to the nearest integer, a tie to the even one.\<close>

definition py_round :: "real \<Rightarrow> int" where
  "py_round x =
     (let f = \<lfloor>x\<rfloor>; d = x - real_of_int f
      in if d < 1 / 2 then f else if 1 / 2 < d then f + 1 else if even f then f else f + 1)"

definition np_clip_int :: "int \<Rightarrow> int \<Rightarrow> int \<Rightarrow> int" where
  "np_clip_int a a_min a_max = min (max a a_min) a_max"

text \<open>
  The generator is mutated by the draws; the state after them is returned beside the
  record.
\<close>

definition generate_patient_labels ::
    "'s library \<Rightarrow> int \<Rightarrow> 's \<Rightarrow> py_error + patient_record \<times> 's" where
  "generate_patient_labels lib patient_index rng0 =
     (let pid = get_patient_id patient_index ''PAT'';
          (stage, rng1) = choice lib FIBROSIS_STAGES FIBROSIS_PROBS rng0
      in (case map_of BINARY_LABEL_MAPPING ''positive'' of
           None \<Rightarrow> Inl KeyError
         | Some positive_stages \<Rightarrow>
             let label = (if stage \<in> set positive_stages then ''positive'' else ''negative'')
             in (case assign_split patient_index NUM_PATIENTS SPLIT_RATIOS of
                  Inl e \<Rightarrow> Inl e
                | Inr sp \<Rightarrow>
                    let (x, rng2) = normal lib AGE_MEAN AGE_STD rng1;
                        a = np_clip_int (py_round x) AGE_MIN AGE_MAX;
                        (sx, rng3) = choice lib SEX_OPTIONS SEX_PROBS rng2
                    in Inr (\<lparr>patient_id = pid, fibrosis_stage = stage, binary_label = label,
                              split = sp, age = a, sex = sx\<rparr>, rng3))))"

text \<open>
  The loop \<^verbatim>\<open>for idx in range(num_patients)\<close>: \<open>idx\<close> is the current index, the \<open>nat\<close>
  counts the iterations left, the state is the one of the global generator.
\<close>

fun labels_loop :: "'s library \<Rightarrow> int \<Rightarrow> nat \<Rightarrow> 's \<Rightarrow> py_error + patient_record list" where
  "labels_loop lib idx 0 rng0 = Inr []"
| "labels_loop lib idx (Suc k) rng0 =
     (case rng_randint lib 0 (2 ^ 31 - 1) rng0 of
        Inl e \<Rightarrow> Inl e
      | Inr (patient_seed, rng1) \<Rightarrow>
          (case RandomState lib patient_seed of
             Inl e \<Rightarrow> Inl e
           | Inr patient_rng \<Rightarrow>
               (case generate_patient_labels lib idx patient_rng of
                  Inl e \<Rightarrow> Inl e
                | Inr (record, _) \<Rightarrow>
                    (case labels_loop lib (idx + 1) k rng1 of
                       Inl e \<Rightarrow> Inl e
                     | Inr records \<Rightarrow> Inr (record # records)))))"

definition generate_all_labels :: "'s library \<Rightarrow> int \<Rightarrow> int \<Rightarrow> py_error + patient_record list" where
  "generate_all_labels lib num_patients seed =
     (case RandomState lib seed of
        Inl e \<Rightarrow> Inl e
      | Inr rng0 \<Rightarrow> labels_loop lib 0 (nat num_patients) rng0)"

subsection \<open>labels\_generator.py, with the generators as objects of the process\<close>

text \<open>
  In the functions above the state of a generator is passed in and out by hand. In the
  interpreter a generator is an object: \<^verbatim>\<open>np.random.RandomState(seed)\<close> makes a new one,
  a method call changes the one it is called on, and the process holds others, among them
  the module-level generator of numpy that \<^verbatim>\<open>np.random.seed\<close> sets and \<^verbatim>\<open>np.random.randint\<close>
  and its like draw from. The state of the process is the module-level generator, the
  generator objects by address, and the next address to be handed out.
\<close>

record 's process =
  np_global :: 's
  objects :: "nat \<Rightarrow> 's"
  next_addr :: nat

text \<open>\<^verbatim>\<open>np.random.RandomState(seed)\<close>: a new object at a new address.\<close>

definition new_RandomState :: "'s library \<Rightarrow> int \<Rightarrow> 's process \<Rightarrow> (py_error + nat) \<times> 's process" where
  "new_RandomState lib seed p =
     (case RandomState lib seed of
        Inl e \<Rightarrow> (Inl e, p)
      | Inr s \<Rightarrow>
          (Inr (next_addr p),
           p\<lparr>objects := (objects p)(next_addr p := s), next_addr := Suc (next_addr p)\<rparr>))"

text \<open>The methods called on the object at address \<open>a\<close>: the draw changes that object.\<close>

definition method_randint ::
    "'s library \<Rightarrow> nat \<Rightarrow> int \<Rightarrow> int \<Rightarrow> 's process \<Rightarrow> (py_error + int) \<times> 's process" where
  "method_randint lib a low high p =
     (case rng_randint lib low high (objects p a) of
        Inl e \<Rightarrow> (Inl e, p)
      | Inr (v, s) \<Rightarrow> (Inr v, p\<lparr>objects := (objects p)(a := s)\<rparr>))"

definition method_choice ::
    "'s library \<Rightarrow> nat \<Rightarrow> string list \<Rightarrow> real list \<Rightarrow> 's process \<Rightarrow> string \<times> 's process" where
  "method_choice lib a xs probs p =
     (let (v, s) = choice lib xs probs (objects p a) in (v, p\<lparr>objects := (objects p)(a := s)\<rparr>))"

definition method_normal ::
    "'s library \<Rightarrow> nat \<Rightarrow> real \<Rightarrow> real \<Rightarrow> 's process \<Rightarrow> real \<times> 's process" where
  "method_normal lib a loc scale p =
     (let (v, s) = normal lib loc scale (objects p a) in (v, p\<lparr>objects := (objects p)(a := s)\<rparr>))"

text \<open>\<open>generate_patient_labels\<close>, its argument \<open>rng\<close> the address of a generator.\<close>

definition generate_patient_labels_proc ::
    "'s library \<Rightarrow> int \<Rightarrow> nat \<Rightarrow> 's process \<Rightarrow> (py_error + patient_record) \<times> 's process" where
  "generate_patient_labels_proc lib patient_index rng_addr p =
     (let pid = get_patient_id patient_index ''PAT'';
          (stage, p1) = method_choice lib rng_addr FIBROSIS_STAGES FIBROSIS_PROBS p
      in (case map_of BINARY_LABEL_MAPPING ''positive'' of
            None \<Rightarrow> (Inl KeyError, p1)
          | Some positive_stages \<Rightarrow>
              let label = (if stage \<in> set positive_stages then ''positive'' else ''negative'')
              in (case assign_split patient_index NUM_PATIENTS SPLIT_RATIOS of
                    Inl e \<Rightarrow> (Inl e, p1)
                  | Inr sp \<Rightarrow>
                      let (x, p2) = method_normal lib rng_addr AGE_MEAN AGE_STD p1;
                          a = np_clip_int (py_round x) AGE_MIN AGE_MAX;
                          (sx, p3) = method_choice lib rng_addr SEX_OPTIONS SEX_PROBS p2
                      in (Inr \<lparr>patient_id = pid, fibrosis_stage = stage, binary_label = label,
                                split = sp, age = a, sex = sx\<rparr>, p3))))"

text \<open>
  The loop of \<open>generate_all_labels\<close>: \<open>rng_addr\<close> is the address of the generator made
  from the seed; every iteration draws a seed from it and makes a generator for the
  patient.
\<close>

fun labels_loop_proc ::
    "'s library \<Rightarrow> int \<Rightarrow> nat \<Rightarrow> nat \<Rightarrow> 's process \<Rightarrow>
     (py_error + patient_record list) \<times> 's process" where
  "labels_loop_proc lib idx 0 rng_addr p = (Inr [], p)"
| "labels_loop_proc lib idx (Suc k) rng_addr p =
     (case method_randint lib rng_addr 0 (2 ^ 31 - 1) p of
        (Inl e, p1) \<Rightarrow> (Inl e, p1)
      | (Inr patient_seed, p1) \<Rightarrow>
          (case new_RandomState lib patient_seed p1 of
             (Inl e, p2) \<Rightarrow> (Inl e, p2)
           | (Inr patient_rng, p2) \<Rightarrow>
               (case generate_patient_labels_proc lib idx patient_rng p2 of
                  (Inl e, p3) \<Rightarrow> (Inl e, p3)
                | (Inr record, p3) \<Rightarrow>
                    (case labels_loop_proc lib (idx + 1) k rng_addr p3 of
                       (Inl e, p4) \<Rightarrow> (Inl e, p4)
                     | (Inr records, p4) \<Rightarrow> (Inr (record # records), p4)))))"

definition generate_all_labels_proc ::
    "'s library \<Rightarrow> int \<Rightarrow> int \<Rightarrow> 's process \<Rightarrow> (py_error + patient_record list) \<times> 's process" where
  "generate_all_labels_proc lib num_patients seed p =
     (case new_RandomState lib seed p of
        (Inl e, p1) \<Rightarrow> (Inl e, p1)
      | (Inr rng_addr, p1) \<Rightarrow> labels_loop_proc lib 0 (nat num_patients) rng_addr p1)"

subsection \<open>image\_generators.py\<close>

text \<open>\<^verbatim>\<open>int(x)\<close> of a float truncates towards zero.\<close>

definition py_int :: "real \<Rightarrow> int" where
  "py_int x = (if 0 \<le> x then \<lfloor>x\<rfloor> else \<lceil>x\<rceil>)"

record 's anatomy =
  liver_center :: "int \<times> int"
  liver_axes :: "int \<times> int"
  rotation_angle :: real
  liver_intensity_base :: real
  rng :: 's

definition get_patient_anatomy_params ::
    "'s library \<Rightarrow> string \<Rightarrow> string \<Rightarrow> py_error + 's anatomy" where
  "get_patient_anatomy_params lib pid modality =
     (let seed_str = pid @ ''_anatomy'';
          seed = int (sha256 lib seed_str) mod 2 ^ 32
      in case RandomState lib seed of
           Inl e \<Rightarrow> Inl e
         | Inr rng0 \<Rightarrow>
             (case map_of IMAGE_RESOLUTIONS ''MRI'' of
                None \<Rightarrow> Inl KeyError
              | Some (h, w) \<Rightarrow>
                  let (u1, rng1) = rand lib rng0;
                      center_x = py_int (real w * (0.4 + 0.2 * u1));
                      (u2, rng2) = rand lib rng1;
                      center_y = py_int (real h * (0.4 + 0.2 * u2));
                      (u3, rng3) = rand lib rng2;
                      axis_major = py_int (real (min h w) * (0.2 + 0.1 * u3));
                      (u4, rng4) = rand lib rng3;
                      axis_minor = py_int (real_of_int axis_major * (0.6 + 0.3 * u4));
                      (rotation, rng5) = uniform lib (- 30) 30 rng4;
                      (base, rng6) = uniform lib 0.5 0.8 rng5
                  in Inr \<lparr>liver_center = (center_y, center_x),
                          liver_axes = (axis_major, axis_minor),
                          rotation_angle = rotation,
                          liver_intensity_base = base,
                          rng = rng6\<rparr>))"

text \<open>
  The mask over the open grid \<^verbatim>\<open>np.ogrid[:h, :w]\<close>. Dividing the array by a zero axis gives
  \<open>inf\<close> or \<open>nan\<close> in numpy, and the comparison with 1 is false then.
\<close>

definition create_elliptical_mask ::
    "nat \<times> nat \<Rightarrow> int \<times> int \<Rightarrow> int \<times> int \<Rightarrow> real \<Rightarrow> bool list list" where
  "create_elliptical_mask shape center axes angle =
     (let (h, w) = shape;
          theta = angle * pi / 180;
          cos_t = cos theta;
          sin_t = sin theta
      in map (\<lambda>y. map (\<lambda>x.
           let y_centered = real_of_int (int y - fst center);
               x_centered = real_of_int (int x - snd center);
               x_rot = x_centered * cos_t - y_centered * sin_t;
               y_rot = x_centered * sin_t + y_centered * cos_t
           in if fst axes = 0 \<or> snd axes = 0 then False
              else x_rot ^ 2 / real_of_int (snd axes ^ 2) + y_rot ^ 2 / real_of_int (fst axes ^ 2) \<le> 1)
         [0..<w]) [0..<h])"

text \<open>\<^verbatim>\<open>xs[i]\<close>: a negative index counts from the end, an index out of range raises.\<close>

definition py_index :: "'a list \<Rightarrow> int \<Rightarrow> py_error + 'a" where
  "py_index xs i =
     (if 0 \<le> i \<and> i < int (length xs) then Inr (xs ! nat i)
      else if i < 0 \<and> - int (length xs) \<le> i then Inr (xs ! nat (int (length xs) + i))
      else Inl IndexError)"

definition index2 :: "'a list list \<Rightarrow> int \<Rightarrow> int \<Rightarrow> py_error + 'a" where
  "index2 a i j = (case py_index a i of Inl e \<Rightarrow> Inl e | Inr row \<Rightarrow> py_index row j)"

text \<open>\<^verbatim>\<open>FIBROSIS_STAGES.index(fibrosis_stage)\<close> raises when the stage is not in the list.\<close>

fun list_index :: "string list \<Rightarrow> string \<Rightarrow> py_error + nat" where
  "list_index [] s = Inl ValueError"
| "list_index (x # xs) s =
     (if x = s then Inr 0
      else case list_index xs s of Inl e \<Rightarrow> Inl e | Inr k \<Rightarrow> Inr (Suc k))"

definition np_clip :: "real list list \<Rightarrow> real \<Rightarrow> real \<Rightarrow> real list list" where
  "np_clip a a_min a_max = map (map (\<lambda>v. min (max v a_min) a_max)) a"

definition np_where :: "bool list list \<Rightarrow> real list list \<Rightarrow> real list list \<Rightarrow> real list list" where
  "np_where condition a b =
     map (\<lambda>(mrow, arow, brow). map (\<lambda>(m, x, y). if m then x else y) (zip mrow (zip arow brow)))
       (zip condition (zip a b))"

text \<open>The disk \<^verbatim>\<open>dist <= radius\<close> around a spot, over the same open grid.\<close>

definition spot_disk :: "nat \<times> nat \<Rightarrow> int \<Rightarrow> int \<Rightarrow> int \<Rightarrow> bool list list" where
  "spot_disk shape spot_y spot_x radius =
     map (\<lambda>rr. map (\<lambda>cc.
         sqrt (real_of_int ((int rr - spot_y) ^ 2 + (int cc - spot_x) ^ 2)) \<le> real_of_int radius)
       [0..<snd shape]) [0..<fst shape]"

text \<open>\<^verbatim>\<open>liver_intensity[spot_mask] += boost\<close>.\<close>

definition add_where :: "bool list list \<Rightarrow> real \<Rightarrow> real list list \<Rightarrow> real list list" where
  "add_where spot_mask boost liver =
     map (\<lambda>(mrow, lrow). map (\<lambda>(m, v). if m then v + boost else v) (zip mrow lrow))
       (zip spot_mask liver)"

text \<open>
  The three generators run the same loop over the spots and differ in its constants
  only: the bounds of the radius passed to \<open>randint\<close> and the bounds of the boost passed to
  \<open>uniform\<close>. The order of the draws is the source's: row, column, then, inside the mask,
  the radius and the boost.
\<close>

fun spots_loop ::
    "'s library \<Rightarrow> nat \<times> nat \<Rightarrow> bool list list \<Rightarrow> int \<times> int \<Rightarrow> real \<times> real \<Rightarrow> nat \<Rightarrow>
     real list list \<Rightarrow> 's \<Rightarrow> py_error + real list list \<times> 's" where
  "spots_loop lib shape liver_mask radius boost 0 liver s = Inr (liver, s)"
| "spots_loop lib shape liver_mask radius boost (Suc n) liver s =
     (case rng_randint lib 0 (int (fst shape)) s of
        Inl e \<Rightarrow> Inl e
      | Inr (spot_y, s1) \<Rightarrow>
          (case rng_randint lib 0 (int (snd shape)) s1 of
             Inl e \<Rightarrow> Inl e
           | Inr (spot_x, s2) \<Rightarrow>
               (case index2 liver_mask spot_y spot_x of
                  Inl e \<Rightarrow> Inl e
                | Inr inside \<Rightarrow>
                    if inside then
                      (case rng_randint lib (fst radius) (snd radius) s2 of
                         Inl e \<Rightarrow> Inl e
                       | Inr (r, s3) \<Rightarrow>
                           let spot_mask = spot_disk shape spot_y spot_x r;
                               (b, s4) = uniform lib (fst boost) (snd boost) s3
                           in spots_loop lib shape liver_mask radius boost n
                                (add_where spot_mask b liver) s4)
                    else spots_loop lib shape liver_mask radius boost n liver s2)))"

definition generate_mri_image ::
    "'s library \<Rightarrow> string \<Rightarrow> string \<Rightarrow> nat \<times> nat \<Rightarrow> py_error + real list list" where
  "generate_mri_image lib pid stage resolution =
     (case get_patient_anatomy_params lib pid ''MRI'' of
        Inl e \<Rightarrow> Inl e
      | Inr params \<Rightarrow>
          let liver_mask = create_elliptical_mask resolution (liver_center params) (liver_axes params)
                       (rotation_angle params);
              (bg, s1) = normal_size lib 0.1 0.02 resolution (rng params);
              background = np_clip bg 0 1
          in (case list_index FIBROSIS_STAGES stage of
               Inl e \<Rightarrow> Inl e
             | Inr stage_index \<Rightarrow>
                 let liver_base = 0.5 + 0.1 * real stage_index;
                     (liver_intensity, s2) = normal_size lib liver_base 0.05 resolution s1
                 in (case (if 2 \<le> stage_index
                          then let (num_spots, s3) = poisson lib (real (5 + 3 * (stage_index - 2))) s2
                               in spots_loop lib resolution liver_mask (3, 8) (0.2, 0.4) num_spots
                                    liver_intensity s3
                          else Inr (liver_intensity, s2)) of
                      Inl e \<Rightarrow> Inl e
                    | Inr (liver, _) \<Rightarrow> Inr (np_clip (np_where liver_mask liver background) 0 1))))"

definition generate_ct_image ::
    "'s library \<Rightarrow> string \<Rightarrow> string \<Rightarrow> nat \<times> nat \<Rightarrow> py_error + real list list" where
  "generate_ct_image lib pid stage resolution =
     (case get_patient_anatomy_params lib pid ''CT'' of
        Inl e \<Rightarrow> Inl e
      | Inr params \<Rightarrow>
          let liver_mask = create_elliptical_mask resolution (liver_center params) (liver_axes params)
                       (rotation_angle params);
              (bg, s1) = normal_size lib 0.05 0.01 resolution (rng params);
              background = np_clip bg 0 1
          in (case list_index FIBROSIS_STAGES stage of
               Inl e \<Rightarrow> Inl e
             | Inr stage_index \<Rightarrow>
                 let liver_mean = 0.5 + 0.05 * real stage_index;
                     (liver_intensity, s2) = normal_size lib liver_mean 0.02 resolution s1
                 in (case (if 3 \<le> stage_index
                          then let (num_spots, s3) = poisson lib 3 s2
                               in spots_loop lib resolution liver_mask (2, 5) (0.3, 0.6) num_spots
                                    liver_intensity s3
                          else Inr (liver_intensity, s2)) of
                      Inl e \<Rightarrow> Inl e
                    | Inr (liver, _) \<Rightarrow> Inr (np_clip (np_where liver_mask liver background) 0 1))))"

definition generate_ultrasound_image ::
    "'s library \<Rightarrow> string \<Rightarrow> string \<Rightarrow> nat \<times> nat \<Rightarrow> py_error + real list list" where
  "generate_ultrasound_image lib pid stage resolution =
     (case get_patient_anatomy_params lib pid ''Ultrasound'' of
        Inl e \<Rightarrow> Inl e
      | Inr params \<Rightarrow>
          let liver_mask = create_elliptical_mask resolution (liver_center params) (liver_axes params)
                       (rotation_angle params);
              (bg, s1) = gamma_size lib 1 0.01 resolution (rng params);
              background = np_clip bg 0 1
          in (case list_index FIBROSIS_STAGES stage of
               Inl e \<Rightarrow> Inl e
             | Inr stage_index \<Rightarrow>
                 let shape = 2.0 + 1.0 * real stage_index;
                     scale = 0.1 + 0.02 * real stage_index;
                     (liver_intensity, s2) = gamma_size lib shape scale resolution s1
                 in (case (if 2 \<le> stage_index
                          then let (num_spots, s3) = poisson lib 8 s2
                               in spots_loop lib resolution liver_mask (2, 4) (0.5, 1.0) num_spots
                                    liver_intensity s3
                          else Inr (liver_intensity, s2)) of
                      Inl e \<Rightarrow> Inl e
                    | Inr (liver, _) \<Rightarrow> Inr (np_clip (np_where liver_mask liver background) 0 1))))"

text \<open>An image of the requested shape with every value in the closed interval from 0 to 1.\<close>

definition valid_image :: "nat \<times> nat \<Rightarrow> real list list \<Rightarrow> bool" where
  "valid_image resolution img =
     (is_shape (fst resolution) (snd resolution) img \<and>
      list_all (list_all (\<lambda>v. 0 \<le> v \<and> v \<le> 1)) img)"

section \<open>Properties\<close>

subsection \<open>Facts about the split assignment\<close>

lemma map_fst_boundaries_loop: "map fst (boundaries_loop c xs) = map fst xs"
  by (induction c xs rule: boundaries_loop.induct) simp_all

lemma first_split_in_keys: "first_split p bs = Some s \<Longrightarrow> s \<in> set (map fst bs)"
  by (induction p bs rule: first_split.induct) (auto split: if_splits)

lemma rank_of_less: "s \<in> set xs \<Longrightarrow> rank_of xs s < length xs"
  by (induction xs) auto

lemma rank_of_last: "distinct xs \<Longrightarrow> xs \<noteq> [] \<Longrightarrow> rank_of xs (last xs) = length xs - 1"
  by (induction xs) auto

text \<open>A smaller position is matched no later than a larger one.\<close>

lemma first_split_mono:
  "distinct (map fst bs) \<Longrightarrow> p1 \<le> p2 \<Longrightarrow> first_split p2 bs = Some s2 \<Longrightarrow>
   \<exists>s1. first_split p1 bs = Some s1 \<and> rank_of (map fst bs) s1 \<le> rank_of (map fst bs) s2"
proof (induction p2 bs rule: first_split.induct)
  case (1 position)
  then show ?case by simp
next
  case (2 position name threshold rest)
  show ?case
  proof (cases "position \<le> threshold")
    case True
    with 2 show ?thesis by simp
  next
    case False
    with 2 have s2: "first_split position rest = Some s2" by simp
    then have "s2 \<in> set (map fst rest)" by (rule first_split_in_keys)
    with 2(2) have ne: "name \<noteq> s2" by auto
    show ?thesis
    proof (cases "p1 \<le> threshold")
      case True
      then show ?thesis by simp
    next
      case above: False
      from 2(1) [OF False _ 2(3) s2] 2(2)
      obtain s1 where s1: "first_split p1 rest = Some s1"
        and le: "rank_of (map fst rest) s1 \<le> rank_of (map fst rest) s2" by auto
      from s1 have "s1 \<in> set (map fst rest)" by (rule first_split_in_keys)
      with 2(2) have "name \<noteq> s1" by auto
      with above s1 le ne show ?thesis by simp
    qed
  qed
qed

lemma isclose_nonempty: "isclose (py_sum (map snd r)) 1 \<Longrightarrow> r \<noteq> []"
  by (auto simp: isclose_def py_sum_def)

lemma assign_split_returns:
  "isclose (py_sum (map snd r)) 1 \<Longrightarrow> N \<noteq> 0 \<Longrightarrow> \<exists>s. assign_split i N r = Inr s"
  by (frule isclose_nonempty) (simp add: assign_split_def split: option.splits)

lemma SPLIT_RATIOS_isclose: "isclose (py_sum (map snd SPLIT_RATIOS)) 1"
  by (simp add: isclose_def py_sum_def SPLIT_RATIOS_def)

lemma assign_split_config_returns: "\<exists>s. assign_split i NUM_PATIENTS SPLIT_RATIOS = Inr s"
  by (rule assign_split_returns [OF SPLIT_RATIOS_isclose]) (simp add: NUM_PATIENTS_def)

subsection \<open>Facts about the label generator\<close>

lemma counter_library_ok: "library_ok counter_library"
proof -
  have bound: "real (s mod 100) / 100 < 1" for s :: nat
  proof -
    have "s mod 100 < 100" by simp
    then have "real (s mod 100) < 100" by linarith
    then show ?thesis by simp
  qed
  have u: "lo \<le> lo + (hi - lo) * real (s mod 100) / 100 \<and>
           lo + (hi - lo) * real (s mod 100) / 100 \<le> hi" if "lo < hi" for lo hi :: real and s :: nat
  proof -
    let ?t = "real (s mod 100) / 100"
    have t0: "0 \<le> ?t" by simp
    have t1: "?t \<le> 1" using bound [of s] by simp
    from that t0 have a: "0 \<le> (hi - lo) * ?t" by simp
    from that t1 have "(hi - lo) * ?t \<le> (hi - lo) * 1"
      by (intro mult_left_mono) simp_all
    with a show ?thesis by simp
  qed
  have r: "lo \<le> lo + int s mod (hi - lo) \<and> lo + int s mod (hi - lo) < hi"
    if "lo < hi" for lo hi :: int and s :: nat
  proof -
    from that have "0 < hi - lo" by simp
    then have "0 \<le> int s mod (hi - lo)" "int s mod (hi - lo) < hi - lo"
      by (rule pos_mod_sign, rule pos_mod_bound)
    then show ?thesis by simp
  qed
  show ?thesis
    unfolding library_ok_def counter_library_def
    using bound u r by (simp add: is_shape_def list_all_iff)
qed

lemma generate_patient_labels_result:
  "\<exists>r s. generate_patient_labels lib i rng0 = Inr (r, s) \<and>
         patient_id r = get_patient_id i ''PAT'' \<and>
         assign_split i NUM_PATIENTS SPLIT_RATIOS = Inr (split r) \<and>
         binary_label r =
           (if fibrosis_stage r = ''F3'' \<or> fibrosis_stage r = ''F4'' then ''positive''
            else ''negative'')"
proof -
  obtain sp where sp: "assign_split i NUM_PATIENTS SPLIT_RATIOS = Inr sp"
    using assign_split_config_returns by blast
  have pos: "map_of BINARY_LABEL_MAPPING ''positive'' = Some [''F3'', ''F4'']"
    by (simp add: BINARY_LABEL_MAPPING_def)
  obtain stage rng1 where c1: "choice lib FIBROSIS_STAGES FIBROSIS_PROBS rng0 = (stage, rng1)"
    by (cases "choice lib FIBROSIS_STAGES FIBROSIS_PROBS rng0")
  obtain x rng2 where n: "normal lib AGE_MEAN AGE_STD rng1 = (x, rng2)"
    by (cases "normal lib AGE_MEAN AGE_STD rng1")
  obtain sx rng3 where c2: "choice lib SEX_OPTIONS SEX_PROBS rng2 = (sx, rng3)"
    by (cases "choice lib SEX_OPTIONS SEX_PROBS rng2")
  have "generate_patient_labels lib i rng0 =
          Inr (\<lparr>patient_id = get_patient_id i ''PAT'', fibrosis_stage = stage,
                 binary_label = (if stage = ''F3'' \<or> stage = ''F4'' then ''positive'' else ''negative''),
                 split = sp, age = np_clip_int (py_round x) AGE_MIN AGE_MAX, sex = sx\<rparr>, rng3)"
    by (simp add: generate_patient_labels_def sp pos c1 n c2)
  then show ?thesis by (simp add: sp)
qed

lemma labels_loop_rows:
  "labels_loop lib idx k rng0 = Inr t \<Longrightarrow>
   length t = k \<and>
   (\<forall>j<k. patient_id (t ! j) = get_patient_id (idx + int j) ''PAT'' \<and>
          assign_split (idx + int j) NUM_PATIENTS SPLIT_RATIOS = Inr (split (t ! j)))"
proof (induction k arbitrary: idx rng0 t)
  case 0
  then show ?case by simp
next
  case (Suc k)
  from Suc.prems obtain patient_seed rng1 patient_rng r s records where
    row: "generate_patient_labels lib idx patient_rng = Inr (r, s)" and
    rest: "labels_loop lib (idx + 1) k rng1 = Inr records" and
    t: "t = r # records"
    by (auto split: sum.splits prod.splits)
  from generate_patient_labels_result [of lib idx patient_rng] row
  have r: "patient_id r = get_patient_id idx ''PAT''"
    "assign_split idx NUM_PATIENTS SPLIT_RATIOS = Inr (split r)" by auto
  from Suc.IH [OF rest] have len: "length records = k" and
    rows: "\<forall>j<k. patient_id (records ! j) = get_patient_id (idx + 1 + int j) ''PAT'' \<and>
             assign_split (idx + 1 + int j) NUM_PATIENTS SPLIT_RATIOS = Inr (split (records ! j))"
    by auto
  have "patient_id (t ! j) = get_patient_id (idx + int j) ''PAT'' \<and>
        assign_split (idx + int j) NUM_PATIENTS SPLIT_RATIOS = Inr (split (t ! j))"
    if "j < Suc k" for j
  proof (cases j)
    case 0
    with r t show ?thesis by simp
  next
    case (Suc j')
    with that have "j' < k" by simp
    with rows have "patient_id (records ! j') = get_patient_id (idx + 1 + int j') ''PAT'' \<and>
             assign_split (idx + 1 + int j') NUM_PATIENTS SPLIT_RATIOS = Inr (split (records ! j'))"
      by blast
    moreover have "idx + 1 + int j' = idx + int j" using Suc by simp
    ultimately show ?thesis using t Suc by simp
  qed
  with len t show ?case by simp
qed

lemma labels_loop_returns: "library_ok lib \<Longrightarrow> \<exists>t. labels_loop lib idx k rng0 = Inr t"
proof (induction k arbitrary: idx rng0)
  case 0
  then show ?case by simp
next
  case (Suc k)
  obtain patient_seed rng1 where d: "randint lib 0 (2 ^ 31 - 1) rng0 = (patient_seed, rng1)"
    by (cases "randint lib 0 (2 ^ 31 - 1) rng0")
  from Suc.prems have "0 \<le> fst (randint lib 0 (2 ^ 31 - 1) rng0) \<and>
      fst (randint lib 0 (2 ^ 31 - 1) rng0) < 2 ^ 31 - 1"
    unfolding library_ok_def by simp
  with d have range: "0 \<le> patient_seed" "patient_seed < 2 ^ 32" by simp_all
  obtain r s where row: "generate_patient_labels lib idx (seed_state lib patient_seed) = Inr (r, s)"
    using generate_patient_labels_result [of lib idx "seed_state lib patient_seed"] by blast
  from Suc.IH [OF Suc.prems] obtain records where
    "labels_loop lib (idx + 1) k rng1 = Inr records" by blast
  with d range row show ?case
    by (simp add: rng_randint_def RandomState_def)
qed

subsection \<open>The split column of the label table\<close>

text \<open>
  C1: the split of row \<open>i\<close> of \<open>generate_all_labels N seed\<close> should be
  \<open>assign_split i N SPLIT_RATIOS\<close>. The code passes the configured \<open>NUM_PATIENTS\<close> (1000)
  instead of \<open>N\<close>: with 10 patients and seed 42 the last row, index 9, is put in \<open>train\<close>
  (position 10/1000), where \<open>assign_split 9 10 SPLIT_RATIOS\<close> is \<open>test\<close>. This holds for
  whatever the generator draws.
\<close>

theorem generate_all_labels_split_ignores_count:
  assumes "library_ok lib"
  shows "\<exists>t. generate_all_labels lib 10 42 = Inr t \<and> length t = 10 \<and>
             split (t ! 9) = ''train'' \<and>
             assign_split 9 10 SPLIT_RATIOS = Inr ''test''"
proof -
  from labels_loop_returns [OF assms] obtain t where
    t: "labels_loop lib 0 10 (seed_state lib 42) = Inr t" by blast
  then have run: "generate_all_labels lib 10 42 = Inr t"
    by (simp add: generate_all_labels_def RandomState_def)
  from labels_loop_rows [OF t] have len: "length t = 10" by simp
  from labels_loop_rows [OF t, THEN conjunct2, rule_format, of 9]
  have row: "assign_split 9 NUM_PATIENTS SPLIT_RATIOS = Inr (split (t ! 9))" by simp
  have "assign_split 9 NUM_PATIENTS SPLIT_RATIOS = Inr ''train''"
    by (simp add: assign_split_def isclose_def py_sum_def SPLIT_RATIOS_def NUM_PATIENTS_def)
  with row have train: "split (t ! 9) = ''train''" by simp
  have "assign_split 9 10 SPLIT_RATIOS = Inr ''test''"
    by (simp add: assign_split_def isclose_def py_sum_def SPLIT_RATIOS_def)
  with run len train show ?thesis by simp
qed

theorem generate_all_labels_split_ignores_count_witness:
  "library_ok counter_library \<and>
   (\<exists>t. generate_all_labels counter_library 10 42 = Inr t \<and> length t = 10 \<and>
        split (t ! 9) = ''train'' \<and>
        assign_split 9 10 SPLIT_RATIOS = Inr ''test'')"
  using generate_all_labels_split_ignores_count [OF counter_library_ok] counter_library_ok
  by simp

subsection \<open>Validation of the ratios\<close>

text \<open>
  C2, as stated: every mapping whose ratios are further than 1e-9 from a sum of 1 is
  rejected. The check is \<open>np.isclose\<close> with its default tolerances, which accepts a sum
  within 1e-8 + 1e-5 of 1: the ratios 0.7, 0.15, 0.150001 sum to 1.000001 and are
  accepted, and patient 0 of 10 is assigned to \<open>train\<close>.
\<close>

theorem assign_split_tolerance_counterexample:
  "\<bar>py_sum (map snd [(''train'', 0.7), (''val'', 0.15), (''test'', 0.150001)]) - 1\<bar> > 1 / 10 ^ 9 \<and>
   assign_split 0 10 [(''train'', 0.7), (''val'', 0.15), (''test'', 0.150001)] = Inr ''train''"
  by (simp add: assign_split_def isclose_def py_sum_def)

text \<open>
  C2, amended: a mapping whose ratios sum to a value further than 1e-8 + 1e-5 from 1 is
  rejected with the error of the ratio check, for every index and every total count (a
  count of 0 included: the check comes before anything else), and no split is returned.
\<close>

theorem assign_split_invalid_ratios:
  "\<bar>py_sum (map snd split_ratios) - 1\<bar> > 1 / 10 ^ 8 + 1 / 10 ^ 5 \<Longrightarrow>
   assign_split patient_index num_patients split_ratios = Inl ValueError"
  by (simp add: assign_split_def isclose_def)

theorem assign_split_invalid_ratios_witness:
  "\<bar>py_sum (map snd [(''train'', 0.6), (''val'', 0.15), (''test'', 0.15)]) - 1\<bar>
     > 1 / 10 ^ 8 + 1 / 10 ^ 5 \<and>
   py_sum (map snd [(''train'', 0.6), (''val'', 0.15), (''test'', 0.15)]) = 0.9 \<and>
   assign_split 0 10 [(''train'', 0.6), (''val'', 0.15), (''test'', 0.15)] = Inl ValueError"
proof -
  have far: "\<bar>py_sum (map snd [(''train'', 0.6), (''val'', 0.15), (''test'', 0.15)]) - 1\<bar>
     > 1 / 10 ^ 8 + 1 / 10 ^ 5"
    by (simp add: py_sum_def)
  have "py_sum (map snd [(''train'', 0.6), (''val'', 0.15), (''test'', 0.15)]) = 0.9"
    by (simp add: py_sum_def)
  with far assign_split_invalid_ratios [OF far, of 0 10] show ?thesis by simp
qed

subsection \<open>The last patient\<close>


subsection \<open>Monotonicity in the index\<close>

text \<open>
  C4: for a mapping (unique keys) that passes the ratio check, a total count \<open>N \<ge> 1\<close> and
  indices \<open>i1 < i2\<close>, both calls return a split, and the rank of the split of \<open>i1\<close> is at
  most the rank of the split of \<open>i2\<close>.
\<close>

theorem assign_split_monotonic:
  assumes "distinct (map fst split_ratios)" "isclose (py_sum (map snd split_ratios)) 1"
    "1 \<le> N" "i1 < i2"
  shows "\<exists>s1 s2. assign_split i1 N split_ratios = Inr s1 \<and>
                 assign_split i2 N split_ratios = Inr s2 \<and>
                 split_rank split_ratios s1 \<le> split_rank split_ratios s2"
proof -
  let ?bs = "boundaries_loop 0 split_ratios"
  let ?p1 = "real_of_int (i1 + 1) / real_of_int N"
  let ?p2 = "real_of_int (i2 + 1) / real_of_int N"
  from assms(2) have ne: "split_ratios \<noteq> []" by (rule isclose_nonempty)
  from assms(3,4) have le: "?p1 \<le> ?p2" by (simp add: divide_right_mono)
  from assms(1) have d: "distinct (map fst ?bs)" by (simp add: map_fst_boundaries_loop)
  show ?thesis
  proof (cases "first_split ?p2 ?bs")
    case None
    with assms(2,3) ne have r2: "assign_split i2 N split_ratios = Inr (last (map fst split_ratios))"
      by (simp add: assign_split_def)
    from ne assms(1) have rk:
      "split_rank split_ratios (last (map fst split_ratios)) = length split_ratios - 1"
      using rank_of_last [of "map fst split_ratios"] by (simp add: split_rank_def)
    show ?thesis
    proof (cases "first_split ?p1 ?bs")
      case unmatched: None
      with assms(2,3) ne have "assign_split i1 N split_ratios = Inr (last (map fst split_ratios))"
        by (simp add: assign_split_def)
      with r2 show ?thesis by simp
    next
      case (Some s1)
      with assms(2,3) have r1: "assign_split i1 N split_ratios = Inr s1"
        by (simp add: assign_split_def)
      from Some have "s1 \<in> set (map fst split_ratios)"
        using first_split_in_keys [of ?p1 ?bs s1] by (simp add: map_fst_boundaries_loop)
      then have "split_rank split_ratios s1 < length split_ratios"
        using rank_of_less [of s1 "map fst split_ratios"] by (simp add: split_rank_def)
      with rk r1 r2 show ?thesis by simp
    qed
  next
    case (Some s2)
    with assms(2,3) have r2: "assign_split i2 N split_ratios = Inr s2"
      by (simp add: assign_split_def)
    from first_split_mono [OF d le Some] obtain s1 where
      s1: "first_split ?p1 ?bs = Some s1" and
      rk: "rank_of (map fst ?bs) s1 \<le> rank_of (map fst ?bs) s2" by blast
    from s1 assms(2,3) have r1: "assign_split i1 N split_ratios = Inr s1"
      by (simp add: assign_split_def)
    from rk have "split_rank split_ratios s1 \<le> split_rank split_ratios s2"
      by (simp add: split_rank_def map_fst_boundaries_loop)
    with r1 r2 show ?thesis by blast
  qed
qed

theorem assign_split_monotonic_witness:
  "distinct (map fst SPLIT_RATIOS) \<and> isclose (py_sum (map snd SPLIT_RATIOS)) 1 \<and>
   (1::int) \<le> 10 \<and> (5::int) < 7 \<and>
   assign_split 5 10 SPLIT_RATIOS = Inr ''train'' \<and>
   assign_split 7 10 SPLIT_RATIOS = Inr ''val'' \<and>
   (\<exists>s1 s2. assign_split 5 10 SPLIT_RATIOS = Inr s1 \<and> assign_split 7 10 SPLIT_RATIOS = Inr s2 \<and>
            split_rank SPLIT_RATIOS s1 \<le> split_rank SPLIT_RATIOS s2)"
proof -
  have d: "distinct (map fst SPLIT_RATIOS)" by (simp add: SPLIT_RATIOS_def)
  have n: "(1::int) \<le> 10" and i: "(5::int) < 7" by simp_all
  have "assign_split 5 10 SPLIT_RATIOS = Inr ''train''" "assign_split 7 10 SPLIT_RATIOS = Inr ''val''"
    by (simp_all add: assign_split_def isclose_def py_sum_def SPLIT_RATIOS_def)
  with assign_split_monotonic [OF d SPLIT_RATIOS_isclose n i] d SPLIT_RATIOS_isclose
  show ?thesis by simp
qed

subsection \<open>Determinism of the label table\<close>

text \<open>
  A call on the object at address \<open>a\<close> of the process does what the function on the
  passed state does to the state of that object, and touches nothing else.
\<close>

lemma generate_patient_labels_proc_eq:
  "\<exists>r s. generate_patient_labels lib i (objects p a) = Inr (r, s) \<and>
         generate_patient_labels_proc lib i a p = (Inr r, p\<lparr>objects := (objects p)(a := s)\<rparr>)"
proof -
  obtain sp where sp: "assign_split i NUM_PATIENTS SPLIT_RATIOS = Inr sp"
    using assign_split_config_returns by blast
  have pos: "map_of BINARY_LABEL_MAPPING ''positive'' = Some [''F3'', ''F4'']"
    by (simp add: BINARY_LABEL_MAPPING_def)
  obtain stage rng1 where c1: "choice lib FIBROSIS_STAGES FIBROSIS_PROBS (objects p a) = (stage, rng1)"
    by (cases "choice lib FIBROSIS_STAGES FIBROSIS_PROBS (objects p a)")
  obtain x rng2 where n: "normal lib AGE_MEAN AGE_STD rng1 = (x, rng2)"
    by (cases "normal lib AGE_MEAN AGE_STD rng1")
  obtain sx rng3 where c2: "choice lib SEX_OPTIONS SEX_PROBS rng2 = (sx, rng3)"
    by (cases "choice lib SEX_OPTIONS SEX_PROBS rng2")
  let ?r = "\<lparr>patient_id = get_patient_id i ''PAT'', fibrosis_stage = stage,
             binary_label = (if stage = ''F3'' \<or> stage = ''F4'' then ''positive'' else ''negative''),
             split = sp, age = np_clip_int (py_round x) AGE_MIN AGE_MAX, sex = sx\<rparr>"
  have pure: "generate_patient_labels lib i (objects p a) = Inr (?r, rng3)"
    by (simp add: generate_patient_labels_def sp pos c1 n c2)
  have "generate_patient_labels_proc lib i a p = (Inr ?r, p\<lparr>objects := (objects p)(a := rng3)\<rparr>)"
    by (simp add: generate_patient_labels_proc_def method_choice_def method_normal_def
        sp pos c1 n c2)
  with pure show ?thesis by blast
qed

text \<open>
  The loop, run on the object at an address that has been handed out: the generators
  it makes for the patients are at later addresses, so none of them is the generator
  the seeds are drawn from, and the table is the one of the loop on the passed state.
\<close>

lemma labels_loop_proc_eq:
  "a < next_addr p \<Longrightarrow>
   fst (labels_loop_proc lib idx k a p) = labels_loop lib idx k (objects p a) \<and>
   np_global (snd (labels_loop_proc lib idx k a p)) = np_global p"
proof (induction k arbitrary: idx p)
  case 0
  then show ?case by simp
next
  case (Suc k)
  show ?case
  proof (cases "rng_randint lib 0 (2 ^ 31 - 1) (objects p a)")
    case (Inl e)
    then show ?thesis by (simp add: method_randint_def)
  next
    case (Inr drawn)
    obtain patient_seed rng1 where drawn: "drawn = (patient_seed, rng1)" by (cases drawn)
    let ?p1 = "p\<lparr>objects := (objects p)(a := rng1)\<rparr>"
    from Inr drawn have m: "method_randint lib a 0 (2 ^ 31 - 1) p = (Inr patient_seed, ?p1)"
      by (simp add: method_randint_def)
    show ?thesis
    proof (cases "RandomState lib patient_seed")
      case failed: (Inl e)
      with Inr drawn m show ?thesis by (simp add: new_RandomState_def)
    next
      case made: (Inr s0)
      let ?b = "next_addr p"
      let ?p2 = "?p1\<lparr>objects := (objects ?p1)(?b := s0), next_addr := Suc ?b\<rparr>"
      from made have alloc: "new_RandomState lib patient_seed ?p1 = (Inr ?b, ?p2)"
        by (simp add: new_RandomState_def)
      from generate_patient_labels_proc_eq [of lib idx ?p2 ?b] obtain r s where
        pure: "generate_patient_labels lib idx s0 = Inr (r, s)" and
        proc: "generate_patient_labels_proc lib idx ?b ?p2 =
                 (Inr r, ?p2\<lparr>objects := (objects ?p2)(?b := s)\<rparr>)"
        by auto
      let ?p3 = "?p2\<lparr>objects := (objects ?p2)(?b := s)\<rparr>"
      from Suc.prems have here: "a < next_addr ?p3" and other: "objects ?p3 a = rng1"
        by simp_all
      from Suc.IH [OF here, of "idx + 1"] other
      have rest: "fst (labels_loop_proc lib (idx + 1) k a ?p3) = labels_loop lib (idx + 1) k rng1"
        and glob: "np_global (snd (labels_loop_proc lib (idx + 1) k a ?p3)) = np_global p"
        by simp_all
      obtain res p4 where run: "labels_loop_proc lib (idx + 1) k a ?p3 = (res, p4)"
        by (cases "labels_loop_proc lib (idx + 1) k a ?p3")
      with rest glob have res: "labels_loop lib (idx + 1) k rng1 = res" "np_global p4 = np_global p"
        by simp_all
      from Inr drawn made pure m alloc proc run res show ?thesis
        by (cases res) simp_all
    qed
  qed
qed

lemma generate_all_labels_proc_eq:
  "fst (generate_all_labels_proc lib N seed p) = generate_all_labels lib N seed \<and>
   np_global (snd (generate_all_labels_proc lib N seed p)) = np_global p"
proof (cases "RandomState lib seed")
  case (Inl e)
  then show ?thesis
    by (simp add: generate_all_labels_proc_def generate_all_labels_def new_RandomState_def)
next
  case (Inr s0)
  let ?p1 = "p\<lparr>objects := (objects p)(next_addr p := s0), next_addr := Suc (next_addr p)\<rparr>"
  have "next_addr p < next_addr ?p1" by simp
  from labels_loop_proc_eq [OF this, of lib 0 "nat N"] Inr show ?thesis
    by (simp add: generate_all_labels_proc_def generate_all_labels_def new_RandomState_def)
qed

text \<open>
  C5: two runs of \<open>generate_all_labels\<close> on the same count and seed give the same outcome
  (the same table or the same error), whatever the state of the process each of them
  starts in: the module-level generator, the generator objects that exist, the addresses
  handed out so far. In particular a second run in the state the first run has left gives
  the table of the first. A run leaves the module-level generator as it was, and its
  outcome is a function of the count and the seed.
\<close>

theorem generate_all_labels_deterministic:
  "fst (generate_all_labels_proc lib N seed p1) = fst (generate_all_labels_proc lib N seed p2) \<and>
   fst (generate_all_labels_proc lib N seed (snd (generate_all_labels_proc lib N seed p1))) =
     fst (generate_all_labels_proc lib N seed p1) \<and>
   np_global (snd (generate_all_labels_proc lib N seed p1)) = np_global p1 \<and>
   fst (generate_all_labels_proc lib N seed p1) = generate_all_labels lib N seed"
  by (simp add: generate_all_labels_proc_eq)

theorem generate_all_labels_deterministic_witness:
  "fst (generate_all_labels_proc counter_library 2 42
          \<lparr>np_global = 7, objects = (\<lambda>a. 5 * a), next_addr = 3\<rparr>) =
     Inr [\<lparr>patient_id = ''PAT_0000'', fibrosis_stage = ''F2'', binary_label = ''negative'',
            split = ''train'', age = 50, sex = ''M''\<rparr>,
          \<lparr>patient_id = ''PAT_0001'', fibrosis_stage = ''F3'', binary_label = ''positive'',
            split = ''train'', age = 55, sex = ''F''\<rparr>] \<and>
   fst (generate_all_labels_proc counter_library 2 42
          \<lparr>np_global = 0, objects = (\<lambda>a. 0), next_addr = 0\<rparr>) =
     Inr [\<lparr>patient_id = ''PAT_0000'', fibrosis_stage = ''F2'', binary_label = ''negative'',
            split = ''train'', age = 50, sex = ''M''\<rparr>,
          \<lparr>patient_id = ''PAT_0001'', fibrosis_stage = ''F3'', binary_label = ''positive'',
            split = ''train'', age = 55, sex = ''F''\<rparr>]"
proof -
  have run: "generate_all_labels counter_library 2 42 =
     Inr [\<lparr>patient_id = ''PAT_0000'', fibrosis_stage = ''F2'', binary_label = ''negative'',
            split = ''train'', age = 50, sex = ''M''\<rparr>,
          \<lparr>patient_id = ''PAT_0001'', fibrosis_stage = ''F3'', binary_label = ''positive'',
            split = ''train'', age = 55, sex = ''F''\<rparr>]"
    by code_simp
  from generate_all_labels_deterministic
         [of counter_library 2 42 "\<lparr>np_global = 7, objects = (\<lambda>a. 5 * a), next_addr = 3\<rparr>"
            "\<lparr>np_global = 0, objects = (\<lambda>a. 0), next_addr = 0\<rparr>"]
    run
  show ?thesis by metis
qed

subsection \<open>The binary label\<close>

text \<open>
  C6: \<open>generate_patient_labels\<close> returns a record for every index and every generator
  state, and in that record the binary label is \<open>positive\<close> exactly when the fibrosis
  stage is F3 or F4, and \<open>negative\<close> exactly when it is not.
\<close>

theorem generate_patient_labels_binary_label:
  "\<exists>r s. generate_patient_labels lib patient_index rng0 = Inr (r, s) \<and>
         (binary_label r = ''positive'') = (fibrosis_stage r = ''F3'' \<or> fibrosis_stage r = ''F4'') \<and>
         (binary_label r = ''negative'') = (\<not> (fibrosis_stage r = ''F3'' \<or> fibrosis_stage r = ''F4''))"
proof -
  from generate_patient_labels_result [of lib patient_index rng0] obtain r s where
    "generate_patient_labels lib patient_index rng0 = Inr (r, s)"
    "binary_label r =
       (if fibrosis_stage r = ''F3'' \<or> fibrosis_stage r = ''F4'' then ''positive'' else ''negative'')"
    by blast
  then show ?thesis by (intro exI [of _ r] exI [of _ s]) simp
qed

subsection \<open>Division by a zero patient count\<close>

text \<open>
  C10: once the ratio check has passed, a call with \<open>num_patients = 0\<close> ends in the division
  error of \<open>(patient_index + 1) / num_patients\<close>, whatever the index and the mapping.
\<close>

theorem assign_split_zero_count:
  "isclose (py_sum (map snd split_ratios)) 1 \<Longrightarrow>
   assign_split patient_index 0 split_ratios = Inl ZeroDivisionError"
  by (simp add: assign_split_def)

theorem assign_split_zero_count_witness:
  "isclose (py_sum (map snd SPLIT_RATIOS)) 1 \<and>
   assign_split 5 0 SPLIT_RATIOS = Inl ZeroDivisionError"
  using assign_split_zero_count [OF SPLIT_RATIOS_isclose, of 5] SPLIT_RATIOS_isclose by simp

subsection \<open>Facts about the anatomy parameters\<close>

lemma MRI_resolution: "map_of IMAGE_RESOLUTIONS ''MRI'' = Some (256, 256)"
  by (simp add: IMAGE_RESOLUTIONS_def)

lemma anatomy_seed_in_range:
  "RandomState lib (int (sha256 lib key) mod 2 ^ 32) =
     Inr (seed_state lib (int (sha256 lib key) mod 2 ^ 32))"
  by (simp add: RandomState_def)

text \<open>The parameters as a function of the six draws, in the order they are made.\<close>

lemma get_patient_anatomy_params_unfold:
  assumes "rand lib (seed_state lib (int (sha256 lib (pid @ ''_anatomy'')) mod 2 ^ 32)) = (u1, s1)"
    "rand lib s1 = (u2, s2)" "rand lib s2 = (u3, s3)" "rand lib s3 = (u4, s4)"
    "uniform lib (- 30) 30 s4 = (a, s5)" "uniform lib 0.5 0.8 s5 = (b, s6)"
  shows "get_patient_anatomy_params lib pid modality =
     Inr \<lparr>liver_center = (py_int (256 * (0.4 + 0.2 * u2)), py_int (256 * (0.4 + 0.2 * u1))),
          liver_axes = (py_int (256 * (0.2 + 0.1 * u3)),
                        py_int (real_of_int (py_int (256 * (0.2 + 0.1 * u3))) * (0.6 + 0.3 * u4))),
          rotation_angle = a, liver_intensity_base = b, rng = s6\<rparr>"
  apply (simp only: get_patient_anatomy_params_def Let_def anatomy_seed_in_range MRI_resolution
      sum.case option.case prod.case assms)
  apply simp
  done

lemma get_patient_anatomy_params_returns:
  "\<exists>p. get_patient_anatomy_params lib pid modality = Inr p"
proof -
  obtain u1 s1 where d1:
    "rand lib (seed_state lib (int (sha256 lib (pid @ ''_anatomy'')) mod 2 ^ 32)) = (u1, s1)"
    by (cases "rand lib (seed_state lib (int (sha256 lib (pid @ ''_anatomy'')) mod 2 ^ 32))")
  obtain u2 s2 where d2: "rand lib s1 = (u2, s2)" by (cases "rand lib s1")
  obtain u3 s3 where d3: "rand lib s2 = (u3, s3)" by (cases "rand lib s2")
  obtain u4 s4 where d4: "rand lib s3 = (u4, s4)" by (cases "rand lib s3")
  obtain a s5 where d5: "uniform lib (- 30) 30 s4 = (a, s5)" by (cases "uniform lib (- 30) 30 s4")
  obtain b s6 where d6: "uniform lib 0.5 0.8 s5 = (b, s6)" by (cases "uniform lib 0.5 0.8 s5")
  from get_patient_anatomy_params_unfold [OF d1 d2 d3 d4 d5 d6] show ?thesis by blast
qed

lemma py_int_bounds: "0 \<le> x \<Longrightarrow> real_of_int (py_int x) \<le> x \<and> x - 1 < real_of_int (py_int x)"
  unfolding py_int_def by (simp; linarith)

lemma py_int_range:
  assumes "real_of_int lo \<le> x" "x < real_of_int hi + 1" "0 \<le> lo"
  shows "lo \<le> py_int x \<and> py_int x \<le> hi"
proof -
  from assms have "0 \<le> x" by linarith
  then have eq: "py_int x = \<lfloor>x\<rfloor>" by (simp add: py_int_def)
  from assms(1) have below: "lo \<le> \<lfloor>x\<rfloor>" by (simp add: le_floor_iff)
  from assms(2) have "\<lfloor>x\<rfloor> < hi + 1" by (simp only: floor_less_iff of_int_add of_int_1)
  then have above: "\<lfloor>x\<rfloor> \<le> hi" by linarith
  from below above show ?thesis by (simp only: eq simp_thms)
qed

subsection \<open>Anatomy across modalities\<close>

text \<open>
  C7: for every patient identifier and any two modality names, the call of
  \<open>get_patient_anatomy_params\<close> returns, and returns the same parameters (center, axes,
  rotation angle, intensity base, and the state of the generator handed on) for both:
  the modality argument is not used, and every call seeds a generator of its own.
\<close>

theorem anatomy_same_across_modalities:
  "\<exists>p. get_patient_anatomy_params lib pid m1 = Inr p \<and>
       get_patient_anatomy_params lib pid m2 = Inr p"
proof -
  from get_patient_anatomy_params_returns obtain p where
    "get_patient_anatomy_params lib pid m1 = Inr p" by blast
  moreover have "get_patient_anatomy_params lib pid m2 = get_patient_anatomy_params lib pid m1"
    by (simp add: get_patient_anatomy_params_def)
  ultimately show ?thesis by simp
qed

subsection \<open>The draws behind the anatomy parameters\<close>

text \<open>
  C9, as stated: the center coordinates lie between 0.4 and 0.6 of the dimension, the
  major axis between 0.2 and 0.3 of it, and the minor axis is the major axis times a
  factor between 0.6 and 0.9. The code truncates each of them to an integer. On the
  counter generator the patient \<open>PAT_0999\<close> draws 0.99, 0, 0.01, 0.02 for the four
  \<open>rand\<close> calls: the column (first draw) is 153, the row (second draw) is 102, below
  0.4 \<times> 256 = 102.4; the major axis is 51, below 0.2 \<times> 256 = 51.2; the minor axis is
  30, below 0.6 \<times> 51 = 30.6.
\<close>

theorem anatomy_ranges_counterexample:
  "get_patient_anatomy_params counter_library ''PAT_0999'' ''MRI'' =
     Inr \<lparr>liver_center = (102, 153), liver_axes = (51, 30), rotation_angle = - 28.2,
          liver_intensity_base = 0.512, rng = 1405\<rparr> \<and>
   real_of_int 102 < 0.4 * 256 \<and> real_of_int 51 < 0.2 * 256 \<and>
   real_of_int 30 < 0.6 * real_of_int 51"
  by (simp add: get_patient_anatomy_params_def counter_library_def RandomState_def
      IMAGE_RESOLUTIONS_def py_int_def Let_def)

text \<open>
  C9, amended: the generator is seeded with the SHA-256 digest of \<open>pid_anatomy\<close> reduced
  modulo \<open>2^32\<close>, and six draws follow in this order: \<open>rand\<close> for the center column,
  \<open>rand\<close> for the center row, \<open>rand\<close> for the major axis, \<open>rand\<close> for the factor of the
  minor axis, \<open>uniform(-30, 30)\<close> for the angle, \<open>uniform(0.5, 0.8)\<close> for the intensity
  base. Each center coordinate is the integer part of 256 \<times> (0.4 + 0.2 u), the major axis
  the integer part of 256 \<times> (0.2 + 0.1 u), the minor axis the integer part of the
  (integer) major axis times (0.6 + 0.3 u). So the row and the column lie in 102..153,
  the major axis in 51..76, the minor axis above 0.6 major - 1 and at most 0.9 major, the
  angle in [-30, 30] and the intensity base in [0.5, 0.8].
\<close>

theorem anatomy_draw_order_and_ranges:
  assumes "library_ok lib"
  shows "\<exists>u1 s1 u2 s2 u3 s3 u4 s4 a s5 b s6 p.
     rand lib (seed_state lib (int (sha256 lib (pid @ ''_anatomy'')) mod 2 ^ 32)) = (u1, s1) \<and>
     rand lib s1 = (u2, s2) \<and> rand lib s2 = (u3, s3) \<and> rand lib s3 = (u4, s4) \<and>
     uniform lib (- 30) 30 s4 = (a, s5) \<and> uniform lib 0.5 0.8 s5 = (b, s6) \<and>
     get_patient_anatomy_params lib pid modality = Inr p \<and>
     snd (liver_center p) = py_int (256 * (0.4 + 0.2 * u1)) \<and>
     fst (liver_center p) = py_int (256 * (0.4 + 0.2 * u2)) \<and>
     fst (liver_axes p) = py_int (256 * (0.2 + 0.1 * u3)) \<and>
     snd (liver_axes p) = py_int (real_of_int (fst (liver_axes p)) * (0.6 + 0.3 * u4)) \<and>
     rotation_angle p = a \<and> liver_intensity_base p = b \<and> rng p = s6 \<and>
     102 \<le> fst (liver_center p) \<and> fst (liver_center p) \<le> 153 \<and>
     102 \<le> snd (liver_center p) \<and> snd (liver_center p) \<le> 153 \<and>
     51 \<le> fst (liver_axes p) \<and> fst (liver_axes p) \<le> 76 \<and>
     0.6 * real_of_int (fst (liver_axes p)) - 1 < real_of_int (snd (liver_axes p)) \<and>
     real_of_int (snd (liver_axes p)) \<le> 0.9 * real_of_int (fst (liver_axes p)) \<and>
     - 30 \<le> rotation_angle p \<and> rotation_angle p \<le> 30 \<and>
     0.5 \<le> liver_intensity_base p \<and> liver_intensity_base p \<le> 0.8"
proof -
  let ?s0 = "seed_state lib (int (sha256 lib (pid @ ''_anatomy'')) mod 2 ^ 32)"
  obtain u1 s1 where d1: "rand lib ?s0 = (u1, s1)" by (cases "rand lib ?s0")
  obtain u2 s2 where d2: "rand lib s1 = (u2, s2)" by (cases "rand lib s1")
  obtain u3 s3 where d3: "rand lib s2 = (u3, s3)" by (cases "rand lib s2")
  obtain u4 s4 where d4: "rand lib s3 = (u4, s4)" by (cases "rand lib s3")
  obtain a s5 where d5: "uniform lib (- 30) 30 s4 = (a, s5)" by (cases "uniform lib (- 30) 30 s4")
  obtain b s6 where d6: "uniform lib 0.5 0.8 s5 = (b, s6)" by (cases "uniform lib 0.5 0.8 s5")
  define major where "major = py_int (256 * (0.2 + 0.1 * u3))"
  define p where "p = \<lparr>liver_center = (py_int (256 * (0.4 + 0.2 * u2)), py_int (256 * (0.4 + 0.2 * u1))),
          liver_axes = (major, py_int (real_of_int major * (0.6 + 0.3 * u4))),
          rotation_angle = a, liver_intensity_base = b, rng = s6\<rparr>"
  have run: "get_patient_anatomy_params lib pid modality = Inr p"
    unfolding p_def major_def by (rule get_patient_anatomy_params_unfold [OF d1 d2 d3 d4 d5 d6])
  from assms have r: "0 \<le> fst (rand lib s) \<and> fst (rand lib s) < 1" for s
    by (simp add: library_ok_def)
  from assms have u: "lo < hi \<Longrightarrow> lo \<le> fst (uniform lib lo hi s) \<and> fst (uniform lib lo hi s) \<le> hi"
    for lo hi s by (simp add: library_ok_def)
  from r [of ?s0] d1 have u1: "0 \<le> u1" "u1 < 1" by simp_all
  from r [of s1] d2 have u2: "0 \<le> u2" "u2 < 1" by simp_all
  from r [of s2] d3 have u3: "0 \<le> u3" "u3 < 1" by simp_all
  from r [of s3] d4 have u4: "0 \<le> u4" "u4 < 1" by simp_all
  from u [of "- 30" 30 s4] d5 have a: "- 30 \<le> a" "a \<le> 30" by simp_all
  from u [of "0.5" "0.8" s5] d6 have b: "0.5 \<le> b" "b \<le> 0.8" by simp_all
  have col: "102 \<le> py_int (256 * (0.4 + 0.2 * u1)) \<and> py_int (256 * (0.4 + 0.2 * u1)) \<le> 153"
    using u1 by (intro py_int_range) simp_all
  have row: "102 \<le> py_int (256 * (0.4 + 0.2 * u2)) \<and> py_int (256 * (0.4 + 0.2 * u2)) \<le> 153"
    using u2 by (intro py_int_range) simp_all
  have maj: "51 \<le> major \<and> major \<le> 76"
    unfolding major_def using u3 by (intro py_int_range) simp_all
  then have m0: "0 \<le> real_of_int major" by simp
  have f: "0.6 \<le> 0.6 + 0.3 * u4" "0.6 + 0.3 * u4 \<le> 0.9" using u4 by simp_all
  from m0 f have lo: "0.6 * real_of_int major \<le> real_of_int major * (0.6 + 0.3 * u4)"
    using mult_left_mono [of "0.6" "0.6 + 0.3 * u4" "real_of_int major"] by (simp add: mult.commute)
  from m0 f have hi: "real_of_int major * (0.6 + 0.3 * u4) \<le> 0.9 * real_of_int major"
    using mult_left_mono [of "0.6 + 0.3 * u4" "0.9" "real_of_int major"] by (simp add: mult.commute)
  from m0 lo have "0 \<le> real_of_int major * (0.6 + 0.3 * u4)" by linarith
  from py_int_bounds [OF this] lo hi
  have minor: "0.6 * real_of_int major - 1 < real_of_int (py_int (real_of_int major * (0.6 + 0.3 * u4)))"
    "real_of_int (py_int (real_of_int major * (0.6 + 0.3 * u4))) \<le> 0.9 * real_of_int major"
    by linarith+
  have fields: "snd (liver_center p) = py_int (256 * (0.4 + 0.2 * u1))"
    "fst (liver_center p) = py_int (256 * (0.4 + 0.2 * u2))"
    "fst (liver_axes p) = major"
    "snd (liver_axes p) = py_int (real_of_int major * (0.6 + 0.3 * u4))"
    "rotation_angle p = a" "liver_intensity_base p = b" "rng p = s6"
    by (simp_all add: p_def)
  show ?thesis
    apply (rule exI [of _ u1])
    apply (rule exI [of _ s1])
    apply (rule exI [of _ u2])
    apply (rule exI [of _ s2])
    apply (rule exI [of _ u3])
    apply (rule exI [of _ s3])
    apply (rule exI [of _ u4])
    apply (rule exI [of _ s4])
    apply (rule exI [of _ a])
    apply (rule exI [of _ s5])
    apply (rule exI [of _ b])
    apply (rule exI [of _ s6])
    apply (rule exI [of _ p])
    using d1 d2 d3 d4 d5 d6 run col row maj minor a b
    unfolding fields
    apply (simp add: major_def)
    done
qed

theorem anatomy_draw_order_and_ranges_witness:
  "library_ok counter_library \<and>
   get_patient_anatomy_params counter_library ''PAT_0000'' ''CT'' =
     Inr \<lparr>liver_center = (139, 139), liver_axes = (70, 57), rotation_angle = 15.6,
          liver_intensity_base = 0.731, rng = 1378\<rparr>"
proof -
  have "get_patient_anatomy_params counter_library ''PAT_0000'' ''CT'' =
     Inr \<lparr>liver_center = (139, 139), liver_axes = (70, 57), rotation_angle = 15.6,
          liver_intensity_base = 0.731, rng = 1378\<rparr>"
    by (simp add: get_patient_anatomy_params_def counter_library_def RandomState_def
      IMAGE_RESOLUTIONS_def py_int_def Let_def)
  with anatomy_draw_order_and_ranges [OF counter_library_ok, of "''PAT_0000''" "''CT''"]
    counter_library_ok
  show ?thesis by simp
qed

subsection \<open>Facts about the image arrays\<close>

lemma is_shape_rows: "is_shape h w a \<Longrightarrow> row \<in> set a \<Longrightarrow> length row = w"
  by (simp add: is_shape_def list_all_iff)

lemma is_shapeI: "length a = h \<Longrightarrow> (\<And>row. row \<in> set a \<Longrightarrow> length row = w) \<Longrightarrow> is_shape h w a"
  by (simp add: is_shape_def list_all_iff)

lemma create_elliptical_mask_shape:
  "is_shape h w (create_elliptical_mask (h, w) center axes angle)"
  by (rule is_shapeI) (auto simp: create_elliptical_mask_def Let_def)

lemma spot_disk_shape: "is_shape h w (spot_disk (h, w) spot_y spot_x radius)"
  by (rule is_shapeI) (auto simp: spot_disk_def)

lemma add_where_shape:
  assumes "is_shape h w spot_mask" "is_shape h w liver"
  shows "is_shape h w (add_where spot_mask boost liver)"
proof (rule is_shapeI)
  from assms show "length (add_where spot_mask boost liver) = h"
    by (simp add: add_where_def is_shape_def)
next
  fix row assume "row \<in> set (add_where spot_mask boost liver)"
  then obtain mrow lrow where in_zip: "(mrow, lrow) \<in> set (zip spot_mask liver)"
    and row: "row = map (\<lambda>(m, v). if m then v + boost else v) (zip mrow lrow)"
    by (auto simp: add_where_def)
  from in_zip have "mrow \<in> set spot_mask" "lrow \<in> set liver"
    by (auto dest: set_zip_leftD set_zip_rightD)
  with assms have "length mrow = w" "length lrow = w" by (auto dest: is_shape_rows)
  with row show "length row = w" by simp
qed

lemma np_where_shape:
  assumes "is_shape h w condition" "is_shape h w a" "is_shape h w b"
  shows "is_shape h w (np_where condition a b)"
proof (rule is_shapeI)
  from assms show "length (np_where condition a b) = h"
    by (simp add: np_where_def is_shape_def)
next
  fix row assume "row \<in> set (np_where condition a b)"
  then obtain mrow arow brow where in_zip: "(mrow, arow, brow) \<in> set (zip condition (zip a b))"
    and row: "row = map (\<lambda>(m, x, y). if m then x else y) (zip mrow (zip arow brow))"
    by (auto simp: np_where_def)
  from in_zip have "mrow \<in> set condition" "(arow, brow) \<in> set (zip a b)"
    by (auto dest: set_zip_leftD set_zip_rightD)
  then have "mrow \<in> set condition" "arow \<in> set a" "brow \<in> set b"
    by (auto dest: set_zip_leftD set_zip_rightD)
  with assms have "length mrow = w" "length arow = w" "length brow = w"
    by (auto dest: is_shape_rows)
  with row show "length row = w" by simp
qed

lemma np_clip_shape: "is_shape h w a \<Longrightarrow> is_shape h w (np_clip a lo hi)"
  by (auto simp: np_clip_def is_shape_def list_all_iff)

lemma np_clip_unit_range: "list_all (list_all (\<lambda>v. 0 \<le> v \<and> v \<le> 1)) (np_clip a 0 1)"
  by (auto simp: np_clip_def list_all_iff)

text \<open>The last two steps of every generator: select by the mask, clip to the unit interval.\<close>

lemma composite_valid:
  assumes "is_shape h w liver_mask" "is_shape h w liver" "is_shape h w bg"
  shows "valid_image (h, w) (np_clip (np_where liver_mask liver (np_clip bg 0 1)) 0 1)"
  unfolding valid_image_def
  using np_clip_shape [OF np_where_shape [OF assms(1,2) np_clip_shape [OF assms(3)]]]
    np_clip_unit_range
  by simp

lemma index2_in_range:
  assumes "is_shape h w a" "0 \<le> i" "i < int h" "0 \<le> j" "j < int w"
  shows "index2 a i j = Inr (a ! nat i ! nat j)"
proof -
  from assms(1) have len: "length a = h" by (simp add: is_shape_def)
  with assms(2,3) have "a ! nat i \<in> set a" by simp
  with assms(1) have "length (a ! nat i) = w" by (rule is_shape_rows)
  with len assms(2-5) show ?thesis by (simp add: index2_def py_index_def)
qed

text \<open>The loop over the spots ends without an error and keeps the shape of the array.\<close>

lemma spots_loop_shape:
  assumes "library_ok lib" "0 < h" "0 < w" "fst radius < snd radius" "is_shape h w liver_mask"
  shows "is_shape h w liver \<Longrightarrow>
         \<exists>liver' s'. spots_loop lib (h, w) liver_mask radius boost n liver s = Inr (liver', s') \<and>
                    is_shape h w liver'"
proof (induction n arbitrary: liver s)
  case 0
  then show ?case by simp
next
  case (Suc n)
  from assms(1) have r: "lo < hi \<Longrightarrow> lo \<le> fst (randint lib lo hi t) \<and> fst (randint lib lo hi t) < hi"
    for lo hi t by (simp add: library_ok_def)
  obtain spot_y s1 where dy: "randint lib 0 (int h) s = (spot_y, s1)"
    by (cases "randint lib 0 (int h) s")
  obtain spot_x s2 where dx: "randint lib 0 (int w) s1 = (spot_x, s2)"
    by (cases "randint lib 0 (int w) s1")
  from r [of 0 "int h" s] dy assms(2) have y: "0 \<le> spot_y" "spot_y < int h" by simp_all
  from r [of 0 "int w" s1] dx assms(3) have x: "0 \<le> spot_x" "spot_x < int w" by simp_all
  from index2_in_range [OF assms(5) y x]
  have inside: "index2 liver_mask spot_y spot_x = Inr (liver_mask ! nat spot_y ! nat spot_x)" .
  show ?case
  proof (cases "liver_mask ! nat spot_y ! nat spot_x")
    case False
    from Suc.IH [OF Suc.prems, of s2] obtain liver' s' where
      "spots_loop lib (h, w) liver_mask radius boost n liver s2 = Inr (liver', s')"
      "is_shape h w liver'" by blast
    with dy dx inside False assms(2,3) show ?thesis
      by (simp add: rng_randint_def)
  next
    case True
    obtain rad s3 where dr: "randint lib (fst radius) (snd radius) s2 = (rad, s3)"
      by (cases "randint lib (fst radius) (snd radius) s2")
    obtain b s4 where db: "uniform lib (fst boost) (snd boost) s3 = (b, s4)"
      by (cases "uniform lib (fst boost) (snd boost) s3")
    have "is_shape h w (add_where (spot_disk (h, w) spot_y spot_x rad) b liver)"
      by (rule add_where_shape [OF spot_disk_shape Suc.prems])
    from Suc.IH [OF this, of s4] obtain liver' s' where
      "spots_loop lib (h, w) liver_mask radius boost n
         (add_where (spot_disk (h, w) spot_y spot_x rad) b liver) s4 = Inr (liver', s')"
      "is_shape h w liver'" by blast
    with dy dx inside True dr db assms(2,3,4) show ?thesis
      by (simp add: rng_randint_def)
  qed
qed

lemma list_index_member: "s \<in> set xs \<Longrightarrow> \<exists>k. list_index xs s = Inr k"
  by (induction xs) auto

lemma library_normal_shape: "library_ok lib \<Longrightarrow> is_shape h w (fst (normal_size lib loc scale (h, w) s))"
  by (simp add: library_ok_def)

lemma library_gamma_shape: "library_ok lib \<Longrightarrow> is_shape h w (fst (gamma_size lib k scale (h, w) s))"
  by (simp add: library_ok_def)

text \<open>
  What is left of a generator once the anatomy, the background and the liver array are
  there: the optional loop over the spots, then the composite.
\<close>

lemma finish_valid:
  assumes "library_ok lib" "0 < h" "0 < w" "fst radius < snd radius"
    "is_shape h w liver_mask" "is_shape h w liver" "is_shape h w bg"
  shows "\<exists>img. (case (if spotted
                      then (case drawn of (num_spots, s3) \<Rightarrow>
                              spots_loop lib (h, w) liver_mask radius boost num_spots liver s3)
                      else Inr (liver, s')) of
                 Inl e \<Rightarrow> Inl e
               | Inr (liver', _) \<Rightarrow> Inr (np_clip (np_where liver_mask liver' (np_clip bg 0 1)) 0 1)) =
              Inr img \<and> valid_image (h, w) img"
proof (cases spotted)
  case True
  obtain n s where d: "drawn = (n, s)" by (cases drawn)
  from spots_loop_shape [OF assms(1-5) assms(6), of boost n s] obtain liver' t where
    "spots_loop lib (h, w) liver_mask radius boost n liver s = Inr (liver', t)"
    "is_shape h w liver'" by blast
  with True d composite_valid [OF assms(5) _ assms(7)] show ?thesis by simp
next
  case False
  with composite_valid [OF assms(5,6,7)] show ?thesis by simp
qed

lemma generate_mri_image_valid:
  assumes "library_ok lib" "stage \<in> set FIBROSIS_STAGES" "0 < h" "0 < w"
  shows "\<exists>img. generate_mri_image lib pid stage (h, w) = Inr img \<and> valid_image (h, w) img"
proof -
  obtain params where p: "get_patient_anatomy_params lib pid ''MRI'' = Inr params"
    using get_patient_anatomy_params_returns by blast
  obtain k where k: "list_index FIBROSIS_STAGES stage = Inr k"
    using list_index_member [OF assms(2)] by blast
  obtain bg s1 where bg: "normal_size lib 0.1 0.02 (h, w) (rng params) = (bg, s1)"
    by (cases "normal_size lib 0.1 0.02 (h, w) (rng params)")
  obtain liver s2 where lv: "normal_size lib (0.5 + 0.1 * real k) 0.05 (h, w) s1 = (liver, s2)"
    by (cases "normal_size lib (0.5 + 0.1 * real k) 0.05 (h, w) s1")
  from library_normal_shape [OF assms(1), of h w "0.1" "0.02" "rng params"] bg
  have sbg: "is_shape h w bg" by simp
  from library_normal_shape [OF assms(1), of h w "0.5 + 0.1 * real k" "0.05" s1] lv
  have slv: "is_shape h w liver" by simp
  show ?thesis
    apply (simp only: generate_mri_image_def Let_def p k bg lv sum.case prod.case)
    apply (rule finish_valid [OF assms(1,3,4) _ create_elliptical_mask_shape slv sbg])
    apply simp
    done
qed

lemma generate_ct_image_valid:
  assumes "library_ok lib" "stage \<in> set FIBROSIS_STAGES" "0 < h" "0 < w"
  shows "\<exists>img. generate_ct_image lib pid stage (h, w) = Inr img \<and> valid_image (h, w) img"
proof -
  obtain params where p: "get_patient_anatomy_params lib pid ''CT'' = Inr params"
    using get_patient_anatomy_params_returns by blast
  obtain k where k: "list_index FIBROSIS_STAGES stage = Inr k"
    using list_index_member [OF assms(2)] by blast
  obtain bg s1 where bg: "normal_size lib 0.05 0.01 (h, w) (rng params) = (bg, s1)"
    by (cases "normal_size lib 0.05 0.01 (h, w) (rng params)")
  obtain liver s2 where lv: "normal_size lib (0.5 + 0.05 * real k) 0.02 (h, w) s1 = (liver, s2)"
    by (cases "normal_size lib (0.5 + 0.05 * real k) 0.02 (h, w) s1")
  from library_normal_shape [OF assms(1), of h w "0.05" "0.01" "rng params"] bg
  have sbg: "is_shape h w bg" by simp
  from library_normal_shape [OF assms(1), of h w "0.5 + 0.05 * real k" "0.02" s1] lv
  have slv: "is_shape h w liver" by simp
  show ?thesis
    apply (simp only: generate_ct_image_def Let_def p k bg lv sum.case prod.case)
    apply (rule finish_valid [OF assms(1,3,4) _ create_elliptical_mask_shape slv sbg])
    apply simp
    done
qed

lemma generate_ultrasound_image_valid:
  assumes "library_ok lib" "stage \<in> set FIBROSIS_STAGES" "0 < h" "0 < w"
  shows "\<exists>img. generate_ultrasound_image lib pid stage (h, w) = Inr img \<and> valid_image (h, w) img"
proof -
  obtain params where p: "get_patient_anatomy_params lib pid ''Ultrasound'' = Inr params"
    using get_patient_anatomy_params_returns by blast
  obtain k where k: "list_index FIBROSIS_STAGES stage = Inr k"
    using list_index_member [OF assms(2)] by blast
  obtain bg s1 where bg: "gamma_size lib 1 0.01 (h, w) (rng params) = (bg, s1)"
    by (cases "gamma_size lib 1 0.01 (h, w) (rng params)")
  obtain liver s2 where
    lv: "gamma_size lib (2.0 + 1.0 * real k) (0.1 + 0.02 * real k) (h, w) s1 = (liver, s2)"
    by (cases "gamma_size lib (2.0 + 1.0 * real k) (0.1 + 0.02 * real k) (h, w) s1")
  from library_gamma_shape [OF assms(1), of h w 1 "0.01" "rng params"] bg
  have sbg: "is_shape h w bg" by simp
  from library_gamma_shape [OF assms(1), of h w "2.0 + 1.0 * real k" "0.1 + 0.02 * real k" s1] lv
  have slv: "is_shape h w liver" by simp
  show ?thesis
    apply (simp only: generate_ultrasound_image_def Let_def p k bg lv sum.case prod.case)
    apply (rule finish_valid [OF assms(1,3,4) _ create_elliptical_mask_shape slv sbg])
    apply simp
    done
qed

subsection \<open>Shape and range of the images\<close>

text \<open>
  C8: for every patient identifier, every stage of F0..F4 and every resolution with a
  positive height and width (the three configured ones among them), each of the three
  generators returns an array of exactly that height and width whose values all lie in
  the closed interval from 0 to 1, given that the generator of numpy draws within its
  bounds and returns arrays of the size asked for.
\<close>

theorem image_generators_shape_and_range:
  assumes "library_ok lib" "stage \<in> set FIBROSIS_STAGES" "0 < h" "0 < w"
  shows "(\<exists>img. generate_mri_image lib pid stage (h, w) = Inr img \<and> valid_image (h, w) img) \<and>
         (\<exists>img. generate_ct_image lib pid stage (h, w) = Inr img \<and> valid_image (h, w) img) \<and>
         (\<exists>img. generate_ultrasound_image lib pid stage (h, w) = Inr img \<and>
                valid_image (h, w) img)"
  using generate_mri_image_valid [OF assms] generate_ct_image_valid [OF assms]
    generate_ultrasound_image_valid [OF assms]
  by blast

theorem image_generators_shape_and_range_witness:
  "library_ok counter_library \<and> ''F4'' \<in> set FIBROSIS_STAGES \<and> (0::nat) < 256 \<and>
   (\<exists>img. generate_mri_image counter_library ''PAT_0000'' ''F4'' (256, 256) = Inr img \<and>
          valid_image (256, 256) img) \<and>
   (\<exists>img. generate_ct_image counter_library ''PAT_0000'' ''F4'' (256, 256) = Inr img \<and>
          valid_image (256, 256) img) \<and>
   (\<exists>img. generate_ultrasound_image counter_library ''PAT_0000'' ''F4'' (256, 256) = Inr img \<and>
          valid_image (256, 256) img)"
proof -
  have stage: "''F4'' \<in> set FIBROSIS_STAGES" by (simp add: FIBROSIS_STAGES_def)
  have pos: "(0::nat) < 256" by simp
  from image_generators_shape_and_range [OF counter_library_ok stage pos pos, of "''PAT_0000''"]
    counter_library_ok stage
  show ?thesis by simp
qed

end
